theory Spec2Isabelle
  imports Main "HOL-Library.Multiset"
begin

section \<open>Data model\<close>

text \<open>
  The server actions of \<^verbatim>\<open>src/app/actions.ts\<close> read and create three kinds of rows
  through the Prisma client. The actions are embedded function by function below. The
  store, the page-regeneration call \<^verbatim>\<open>revalidatePath\<close> and the cache service are
  collaborators: every call to one of them is recorded in a trace, with the arguments the
  action passes, and the environment decides for every call whether it is served or
  throws. A served query is answered from the rows of the store; the cache tier, which
  may answer with an older result of the same query, is not modelled beyond the policy
  that the action hands to it.
\<close>

text \<open>
  Modelled from the spec: the Prisma schema (the declaration of the three row types) is
  not part of the source tree. The fields are the ones the actions name (\<^verbatim>\<open>id\<close>,
  \<^verbatim>\<open>email\<close>, \<^verbatim>\<open>name\<close>, \<^verbatim>\<open>title\<close>, \<^verbatim>\<open>content\<close>, \<^verbatim>\<open>published\<close>,
  \<^verbatim>\<open>createdAt\<close>) and the foreign keys of section 3 of the specification. Timestamps
  are natural numbers (a larger number is a later instant).
\<close>

record user =
  user_id :: string
  user_email :: string
  user_name :: "string option"
  user_createdAt :: nat

record post =
  post_id :: string
  post_title :: string
  post_content :: "string option"
  post_published :: bool
  post_authorId :: string
  post_createdAt :: nat

record comment =
  comment_id :: string
  comment_content :: string
  comment_postId :: string
  comment_authorId :: string
  comment_createdAt :: nat

subsection \<open>Errors\<close>

text \<open>
  An object thrown by a collaborator (the store, \<^verbatim>\<open>revalidatePath\<close>, the cache
  service). The actions only ever read its \<^verbatim>\<open>code\<close> property.
\<close>

record ext_error =
  ext_code :: "string option"
  ext_message :: string

text \<open>
  What an action throws: \<open>Error msg\<close> is \<^verbatim>\<open>new Error(msg)\<close> built by the action
  itself, \<open>Thrown e\<close> is a collaborator's own error object travelling on unchanged.
\<close>

datatype exn = Error string | Thrown ext_error

fun exn_code :: "exn \<Rightarrow> string option" where
  "exn_code (Error msg) = None"
| "exn_code (Thrown e) = ext_code e"

subsection \<open>The world: rows, environment and trace\<close>

record cache_strategy =
  ttl :: "nat option"
  swr :: "nat option"
  tags :: "string list"

text \<open>
  Every call that leaves the action is an event: a store query (with the model it
  addresses and the cache strategy it passes, if any), a page-regeneration signal, a tag
  invalidation request, or a line written with \<^verbatim>\<open>console.error\<close>.
\<close>

datatype event =
    FindMany string "cache_strategy option"
  | FindUnique string string "cache_strategy option"
  | Create string
  | RevalidatePath string
  | Invalidate "string list"
  | ConsoleError string exn

text \<open>
  \<open>faults\<close> is the environment's plan for the calls to come: each call to a
  collaborator takes the head of the list, \<open>None\<close> for a call that is served and
  \<open>Some e\<close> for one that throws \<open>e\<close>; an empty plan serves every call.
  \<open>clock\<close> is the store's time and \<open>nextId\<close> its identifier generator.
  \<open>tie_rank\<close> is the store's own order among rows that an \<^verbatim>\<open>orderBy\<close> does not
  tell apart: the action has no say in it, so it belongs to the environment, and nothing
  is known about it.
\<close>

record world =
  db_users :: "user list"
  db_posts :: "post list"
  db_comments :: "comment list"
  nextId :: nat
  clock :: nat
  faults :: "ext_error option list"
  trace :: "event list"
  tie_rank :: "string \<Rightarrow> nat"

subsection \<open>The store's query language, as far as the actions use it\<close>

text \<open>
  \<^verbatim>\<open>orderBy: { createdAt: "desc" }\<close>: newest first. The store does not say how rows
  of equal time are ordered: they come in the order of the store's rank (and rows of
  equal rank as they are stored), so that every order of rows with different
  identifiers and one time is the order of some rank.
\<close>

definition order_desc :: "('a \<Rightarrow> nat) \<Rightarrow> ('a \<Rightarrow> nat) \<Rightarrow> 'a list \<Rightarrow> 'a list" where
  "order_desc rank key xs = sort_key (\<lambda>x. - int (key x)) (sort_key rank xs)"

definition user_rank :: "world \<Rightarrow> user \<Rightarrow> nat" where
  "user_rank s u = tie_rank s (user_id u)"

definition post_rank :: "world \<Rightarrow> post \<Rightarrow> nat" where
  "post_rank s p = tie_rank s (post_id p)"

definition comment_rank :: "world \<Rightarrow> comment \<Rightarrow> nat" where
  "comment_rank s c = tie_rank s (comment_id c)"

text \<open>
  A JavaScript \<^verbatim>\<open>number\<close>, as far as the store tells numbers apart: an integer, or a
  value that is none (a fraction, \<^verbatim>\<open>NaN\<close>, an infinity).
\<close>

datatype js_number = Integral int | NonIntegral

text \<open>
  The store takes an integer argument only when it is an integer that fits a signed
  64-bit word; any other number makes the query throw.
\<close>

fun accepted_int :: "js_number \<Rightarrow> int option" where
  "accepted_int NonIntegral = None"
| "accepted_int (Integral i) =
     (if - (2 ^ 63) \<le> i \<and> i < 2 ^ 63 then Some i else None)"

text \<open>
  \<^verbatim>\<open>take: n\<close>: the first \<open>n\<close> rows of the ordered result; a negative \<open>n\<close> takes
  from the end of it.
\<close>

definition take_rows :: "int \<Rightarrow> 'a list \<Rightarrow> 'a list" where
  "take_rows n xs =
     (if 0 \<le> n then take (nat n) xs else drop (length xs - nat (- n)) xs)"

definition posts_of :: "string \<Rightarrow> world \<Rightarrow> post list" where
  "posts_of uid s = filter (\<lambda>p. post_authorId p = uid) (db_posts s)"

definition comments_by :: "string \<Rightarrow> world \<Rightarrow> comment list" where
  "comments_by uid s = filter (\<lambda>c. comment_authorId c = uid) (db_comments s)"

definition comments_on :: "string \<Rightarrow> world \<Rightarrow> comment list" where
  "comments_on pid s = filter (\<lambda>c. comment_postId c = pid) (db_comments s)"

definition user_by_id :: "string \<Rightarrow> world \<Rightarrow> user option" where
  "user_by_id uid s = find (\<lambda>u. user_id u = uid) (db_users s)"

definition post_by_id :: "string \<Rightarrow> world \<Rightarrow> post option" where
  "post_by_id pid s = find (\<lambda>p. post_id p = pid) (db_posts s)"

text \<open>
  Identifiers are generated by the store: a counter, written in decimal (\<open>digit\<close> is
  only ever applied to a number below ten).
\<close>

definition digit :: "nat \<Rightarrow> char" where
  "digit d = ''0123456789'' ! d"

fun digits :: "nat \<Rightarrow> string" where
  "digits n =
     (if n < 10 then [digit n]
      else digits (n div 10) @ [digit (n mod 10)])"

definition fresh_id :: "world \<Rightarrow> string" where
  "fresh_id s = ''id'' @ digits (nextId s)"


subsection \<open>Control flow of an action\<close>

type_synonym 'a action = "world \<Rightarrow> (exn + 'a) \<times> world"

definition returnE :: "'a \<Rightarrow> 'a action" where
  "returnE x s = (Inr x, s)"

definition throwE :: "exn \<Rightarrow> 'a action" where
  "throwE e s = (Inl e, s)"

text \<open>Sequencing of two awaited steps: a throw of the first skips the second.\<close>

definition bindE :: "'a action \<Rightarrow> ('a \<Rightarrow> 'b action) \<Rightarrow> 'b action" where
  "bindE m f s = (case m s of (Inl e, s1) \<Rightarrow> (Inl e, s1) | (Inr x, s1) \<Rightarrow> f x s1)"

text \<open>\<^verbatim>\<open>try { m } catch (error) { h error }\<close>.\<close>

definition catchE :: "'a action \<Rightarrow> (exn \<Rightarrow> 'a action) \<Rightarrow> 'a action" where
  "catchE m h s = (case m s of (Inl e, s1) \<Rightarrow> h e s1 | (Inr x, s1) \<Rightarrow> (Inr x, s1))"

text \<open>An event is appended to the trace when the action makes the call.\<close>

definition emit :: "event \<Rightarrow> world \<Rightarrow> world" where
  "emit ev s = s\<lparr>trace := trace s @ [ev]\<rparr>"

text \<open>\<^verbatim>\<open>console.error(msg, error)\<close>: writes a line, never throws.\<close>

definition console_error :: "string \<Rightarrow> exn \<Rightarrow> unit action" where
  "console_error msg e s = (Inr (), emit (ConsoleError msg e) s)"

text \<open>
  A call to a collaborator: the call is recorded and takes the head of the
  environment's plan, which decides whether it is served.
\<close>

fun next_fault :: "ext_error option list \<Rightarrow> ext_error option" where
  "next_fault [] = None"
| "next_fault (f # fs) = f"

definition advance :: "event \<Rightarrow> world \<Rightarrow> world" where
  "advance ev s = (emit ev s)\<lparr>faults := drop 1 (faults s)\<rparr>"

definition issue :: "event \<Rightarrow> world \<Rightarrow> ext_error option \<times> world" where
  "issue ev s = (next_fault (faults s), advance ev s)"

text \<open>A served call computes its answer from the world it finds.\<close>

definition call :: "event \<Rightarrow> (world \<Rightarrow> (exn + 'a) \<times> world) \<Rightarrow> 'a action" where
  "call ev serve s =
     (case issue ev s of
        (Some e, s1) \<Rightarrow> (Inl (Thrown e), s1)
      | (None, s1) \<Rightarrow> serve s1)"

subsection \<open>Results of the queries\<close>

record user_listed =
  ul_user :: user
  ul_posts :: "post list"
  ul_count_comments :: nat
  ul_count_posts :: nat

record comment_with_author =
  cwa_comment :: comment
  cwa_author :: "user option"

record post_listed =
  pl_post :: post
  pl_author :: "user option"
  pl_comments :: "comment_with_author list"
  pl_count_comments :: nat

record user_detail =
  ud_user :: user
  ud_posts :: "post list"
  ud_comments :: "comment list"
  ud_count_comments :: nat
  ud_count_posts :: nat

record post_created =
  pc_post :: post
  pc_author :: "user option"

record comment_created =
  cc_comment :: comment
  cc_author :: "user option"
  cc_post :: "post option"

subsection \<open>The calls the actions make\<close>

text \<open>
  \<^verbatim>\<open>prisma.user.findMany\<close> of \<^verbatim>\<open>getUsers\<close>: every user with its posts and the
  counts of its comments and posts, newest first.
\<close>

definition prisma_user_findMany :: "cache_strategy \<Rightarrow> user_listed list action" where
  "prisma_user_findMany cs =
     call (FindMany ''user'' (Some cs)) (\<lambda>s.
       (Inr (map (\<lambda>u. \<lparr>ul_user = u,
                        ul_posts = posts_of (user_id u) s,
                        ul_count_comments = length (comments_by (user_id u) s),
                        ul_count_posts = length (posts_of (user_id u) s)\<rparr>)
                 (order_desc (user_rank s) user_createdAt (db_users s))), s))"

text \<open>
  \<^verbatim>\<open>prisma.post.findMany\<close> of \<^verbatim>\<open>getPosts\<close>: posts newest first, cut by
  \<^verbatim>\<open>take\<close>, each with its author, its comments (newest first, each with its author)
  and the count of its comments. A relation whose target row is absent is \<open>None\<close>.
  A \<^verbatim>\<open>take\<close> that the store does not accept makes the query throw.
\<close>

definition invalid_argument :: ext_error where
  "invalid_argument =
     \<lparr>ext_code = None, ext_message = ''Invalid value provided for argument take''\<rparr>"

definition prisma_post_findMany ::
    "js_number \<Rightarrow> cache_strategy \<Rightarrow> post_listed list action" where
  "prisma_post_findMany n cs =
     call (FindMany ''post'' (Some cs)) (\<lambda>s.
       case accepted_int n of
         None \<Rightarrow> (Inl (Thrown invalid_argument), s)
       | Some i \<Rightarrow>
           (Inr (map (\<lambda>p. \<lparr>pl_post = p,
                            pl_author = user_by_id (post_authorId p) s,
                            pl_comments =
                              map (\<lambda>c. \<lparr>cwa_comment = c,
                                         cwa_author = user_by_id (comment_authorId c) s\<rparr>)
                                  (order_desc (comment_rank s) comment_createdAt
                                     (comments_on (post_id p) s)),
                            pl_count_comments = length (comments_on (post_id p) s)\<rparr>)
                     (take_rows i (order_desc (post_rank s) post_createdAt (db_posts s)))),
            s))"

text \<open>
  \<^verbatim>\<open>prisma.user.findUnique\<close> of \<^verbatim>\<open>getUserById\<close>: the user with its posts
  (newest first), its ten newest comments and both counts; \<open>None\<close> is \<^verbatim>\<open>null\<close>.
\<close>

definition prisma_user_findUnique_include ::
    "string \<Rightarrow> cache_strategy \<Rightarrow> user_detail option action" where
  "prisma_user_findUnique_include uid cs =
     call (FindUnique ''user'' uid (Some cs)) (\<lambda>s.
       (Inr (case user_by_id uid s of
               None \<Rightarrow> None
             | Some u \<Rightarrow>
                 Some \<lparr>ud_user = u,
                       ud_posts = order_desc (post_rank s) post_createdAt (posts_of uid s),
                       ud_comments =
                         take_rows 10
                           (order_desc (comment_rank s) comment_createdAt
                              (comments_by uid s)),
                       ud_count_comments = length (comments_by uid s),
                       ud_count_posts = length (posts_of uid s)\<rparr>), s))"

text \<open>The plain existence lookups of \<^verbatim>\<open>createPost\<close> and \<^verbatim>\<open>createComment\<close>.\<close>

definition prisma_user_findUnique :: "string \<Rightarrow> user option action" where
  "prisma_user_findUnique uid =
     call (FindUnique ''user'' uid None) (\<lambda>s. (Inr (user_by_id uid s), s))"

definition prisma_post_findUnique :: "string \<Rightarrow> post option action" where
  "prisma_post_findUnique pid =
     call (FindUnique ''post'' pid None) (\<lambda>s. (Inr (post_by_id pid s), s))"

text \<open>
  Modelled from the spec: the schema's uniqueness constraint on \<^verbatim>\<open>email\<close> is declared
  outside the source tree. Section 3 of the specification has the store enforce it and
  signal a violation by a distinguishable error code, which the action compares with
  \<^verbatim>\<open>"P2002"\<close>.
\<close>

definition unique_violation :: ext_error where
  "unique_violation =
     \<lparr>ext_code = Some ''P2002'', ext_message = ''Unique constraint failed on email''\<rparr>"

definition prisma_user_create :: "string \<Rightarrow> string option \<Rightarrow> user action" where
  "prisma_user_create email name =
     call (Create ''user'') (\<lambda>s.
       if email \<in> set (map user_email (db_users s)) then (Inl (Thrown unique_violation), s)
       else
         (let u = \<lparr>user_id = fresh_id s, user_email = email, user_name = name,
                   user_createdAt = clock s\<rparr>
          in (Inr u, s\<lparr>db_users := db_users s @ [u], nextId := Suc (nextId s)\<rparr>)))"

text \<open>
  \<^verbatim>\<open>connect: { id }\<close> links the new row to an existing one; when that row is absent
  the store throws and inserts nothing.
\<close>

definition missing_record :: ext_error where
  "missing_record =
     \<lparr>ext_code = Some ''P2025'', ext_message = ''Required record not found''\<rparr>"

definition prisma_post_create ::
    "string \<Rightarrow> string option \<Rightarrow> bool \<Rightarrow> string \<Rightarrow> post_created action" where
  "prisma_post_create title content published authorId =
     call (Create ''post'') (\<lambda>s.
       if user_by_id authorId s = None then (Inl (Thrown missing_record), s)
       else
         (let p = \<lparr>post_id = fresh_id s, post_title = title, post_content = content,
                   post_published = published, post_authorId = authorId,
                   post_createdAt = clock s\<rparr>
          in (Inr \<lparr>pc_post = p, pc_author = user_by_id authorId s\<rparr>,
              s\<lparr>db_posts := db_posts s @ [p], nextId := Suc (nextId s)\<rparr>)))"

definition prisma_comment_create ::
    "string \<Rightarrow> string \<Rightarrow> string \<Rightarrow> comment_created action" where
  "prisma_comment_create content postId authorId =
     call (Create ''comment'') (\<lambda>s.
       if post_by_id postId s = None \<or> user_by_id authorId s = None
       then (Inl (Thrown missing_record), s)
       else
         (let c = \<lparr>comment_id = fresh_id s, comment_content = content,
                   comment_postId = postId, comment_authorId = authorId,
                   comment_createdAt = clock s\<rparr>
          in (Inr \<lparr>cc_comment = c, cc_author = user_by_id authorId s,
                   cc_post = post_by_id postId s\<rparr>,
              s\<lparr>db_comments := db_comments s @ [c], nextId := Suc (nextId s)\<rparr>)))"

text \<open>\<^verbatim>\<open>revalidatePath(path)\<close> and \<^verbatim>\<open>prisma.$accelerate.invalidate({ tags })\<close>.\<close>

definition revalidatePath :: "string \<Rightarrow> unit action" where
  "revalidatePath path = call (RevalidatePath path) (\<lambda>s. (Inr (), s))"

definition accelerate_invalidate :: "string list \<Rightarrow> unit action" where
  "accelerate_invalidate tgs = call (Invalidate tgs) (\<lambda>s. (Inr (), s))"


section \<open>The actions\<close>

text \<open>
  TypeScript's parameter types are erased when the action runs, so a required string
  can arrive as \<^verbatim>\<open>undefined\<close>: an argument is a \<open>string option\<close>, \<open>None\<close> for
  a missing one. \<open>truthy v\<close> is the string the action goes on with when \<^verbatim>\<open>!v\<close> is
  false, and \<open>None\<close> when \<^verbatim>\<open>!v\<close> is true (missing or empty).
\<close>

fun truthy :: "string option \<Rightarrow> string option" where
  "truthy None = None"
| "truthy (Some v) = (if v = [] then None else Some v)"

text \<open>A parameter with a default value takes it when the argument is missing.\<close>

fun default_to :: "'a \<Rightarrow> 'a option \<Rightarrow> 'a" where
  "default_to d None = d"
| "default_to d (Some v) = v"

subsection \<open>Read actions\<close>

definition getUsers :: "user_listed list action" where
  "getUsers =
     catchE
       (bindE (prisma_user_findMany \<lparr>ttl = Some 60, swr = None, tags = [''users_list'']\<rparr>)
          (\<lambda>users. returnE users))
       (\<lambda>error.
          bindE (console_error ''Error fetching users:'' error)
            (\<lambda>_. throwE (Error ''Failed to fetch users'')))"

definition getPosts :: "js_number option \<Rightarrow> post_listed list action" where
  "getPosts limit_arg =
     (let limit = default_to (Integral 5) limit_arg in
      catchE
        (bindE (prisma_post_findMany limit
                  \<lparr>ttl = None, swr = Some 120, tags = [''posts_list'']\<rparr>)
           (\<lambda>posts. returnE posts))
        (\<lambda>error.
           bindE (console_error ''Error fetching posts: '' error)
             (\<lambda>_. throwE (Error ''Failed to fetch posts''))))"

definition getUserById :: "string \<Rightarrow> user_detail action" where
  "getUserById uid =
     catchE
       (bindE (prisma_user_findUnique_include uid
                 \<lparr>ttl = Some 30, swr = Some 60, tags = [''user_'' @ uid]\<rparr>)
          (\<lambda>user.
             case user of
               None \<Rightarrow> throwE (Error ''User not found'')
             | Some u \<Rightarrow> returnE u))
       (\<lambda>error.
          bindE (console_error (''Error fetching user with ID '' @ uid @ '':'') error)
            (\<lambda>_. throwE error))"

subsection \<open>Create actions\<close>

record createUser_args =
  cu_email :: "string option"
  cu_name :: "string option"

definition createUser :: "createUser_args \<Rightarrow> user action" where
  "createUser a =
     (case truthy (cu_email a) of
        None \<Rightarrow> throwE (Error ''Email is required'')
      | Some email \<Rightarrow>
          catchE
            (bindE (prisma_user_create email (cu_name a)) (\<lambda>user.
             bindE (revalidatePath ''/'') (\<lambda>_.
             returnE user)))
            (\<lambda>error.
               if exn_code error = Some ''P2002''
               then throwE (Error ''A user with this email already exists'')
               else throwE (Error ''Failed to create user'')))"

record createPost_args =
  cp_title :: "string option"
  cp_content :: "string option"
  cp_authorId :: "string option"
  cp_published :: "bool option"

definition createPost :: "createPost_args \<Rightarrow> post_created action" where
  "createPost a =
     (let published = default_to False (cp_published a) in
      case (truthy (cp_title a), truthy (cp_authorId a)) of
        (Some title, Some authorId) \<Rightarrow>
          catchE
            (bindE (prisma_user_findUnique authorId) (\<lambda>authorExists.
               if authorExists = None then throwE (Error ''Author not found'')
               else
                 bindE (prisma_post_create title (cp_content a) published authorId) (\<lambda>post.
                 bindE (revalidatePath ''/'') (\<lambda>_.
                 returnE post))))
            (\<lambda>error.
               bindE (console_error ''Error creating post:'' error)
                 (\<lambda>_. throwE error))
      | _ \<Rightarrow> throwE (Error ''Title and author are required''))"

record createComment_args =
  cm_content :: "string option"
  cm_postId :: "string option"
  cm_authorId :: "string option"

definition createComment :: "createComment_args \<Rightarrow> comment_created action" where
  "createComment a =
     (case (truthy (cm_content a), truthy (cm_postId a), truthy (cm_authorId a)) of
        (Some content, Some postId, Some authorId) \<Rightarrow>
          catchE
            (bindE (prisma_post_findUnique postId) (\<lambda>postExists.
             bindE (prisma_user_findUnique authorId) (\<lambda>authorExists.
               if postExists = None then throwE (Error ''Post not found'')
               else if authorExists = None then throwE (Error ''Author not found'')
               else
                 bindE (prisma_comment_create content postId authorId) (\<lambda>comment.
                 bindE (revalidatePath ''/'') (\<lambda>_.
                 bindE (accelerate_invalidate [''posts_list'', ''user_'' @ authorId]) (\<lambda>_.
                 returnE comment))))))
            (\<lambda>error.
               bindE (console_error ''Error creating comment:'' error)
                 (\<lambda>_. throwE error))
      | _ \<Rightarrow> throwE (Error ''Content, post, and author are required''))"


section \<open>Vocabulary of the properties\<close>

text \<open>The events an execution from \<open>s\<close> to \<open>s'\<close> has added to the trace.\<close>

definition issued :: "world \<Rightarrow> world \<Rightarrow> event list" where
  "issued s s' = drop (length (trace s)) (trace s')"

fun is_store_call :: "event \<Rightarrow> bool" where
  "is_store_call (FindMany m cs) = True"
| "is_store_call (FindUnique m i cs) = True"
| "is_store_call (Create m) = True"
| "is_store_call ev = False"

text \<open>
  The part of the environment's plan that the calls of an execution from \<open>s\<close> to
  \<open>s'\<close> have taken: a collaborator has failed with \<open>e\<close> during the execution when
  \<open>Some e\<close> is among them.
\<close>

definition consumed :: "world \<Rightarrow> world \<Rightarrow> ext_error option list" where
  "consumed s s' = take (length (faults s) - length (faults s')) (faults s)"

text \<open>
  A block of awaited steps passes failures on: it only ever takes entries from the front
  of the plan, and when a collaborator has failed with \<open>e\<close> the block ends by
  throwing that very object.
\<close>

definition propagates :: "'a action \<Rightarrow> bool" where
  "propagates m =
     (\<forall>s. (\<exists>k. faults (snd (m s)) = drop k (faults s)) \<and>
          (\<forall>e. Some e \<in> set (consumed s (snd (m s))) \<longrightarrow> fst (m s) = Inl (Thrown e)))"

text \<open>Descending by creation time: no row is followed by a newer one.\<close>

definition newest_first :: "('a \<Rightarrow> nat) \<Rightarrow> 'a list \<Rightarrow> bool" where
  "newest_first key xs = sorted_wrt (\<lambda>a b. key b \<le> key a) xs"

subsection \<open>A small database for concrete runs\<close>

definition alice :: user where
  "alice = \<lparr>user_id = ''u1'', user_email = ''a@x.com'', user_name = Some ''Alice'',
            user_createdAt = 1\<rparr>"

definition post1 :: post where
  "post1 = \<lparr>post_id = ''p1'', post_title = ''T'', post_content = None,
            post_published = False, post_authorId = ''u1'', post_createdAt = 2\<rparr>"

definition post2 :: post where
  "post2 = \<lparr>post_id = ''p2'', post_title = ''U'', post_content = Some ''text'',
            post_published = True, post_authorId = ''u1'', post_createdAt = 4\<rparr>"

definition comment1 :: comment where
  "comment1 = \<lparr>comment_id = ''c1'', comment_content = ''hi'', comment_postId = ''p1'',
               comment_authorId = ''u1'', comment_createdAt = 3\<rparr>"

definition comment2 :: comment where
  "comment2 = \<lparr>comment_id = ''c2'', comment_content = ''ho'', comment_postId = ''p2'',
               comment_authorId = ''u1'', comment_createdAt = 5\<rparr>"

definition boom :: ext_error where
  "boom = \<lparr>ext_code = None, ext_message = ''connection lost''\<rparr>"

text \<open>The database above, with the environment's plan \<open>fs\<close> and an empty trace.\<close>

definition world_of :: "ext_error option list \<Rightarrow> world" where
  "world_of fs =
     \<lparr>db_users = [alice], db_posts = [post1, post2], db_comments = [comment1, comment2],
      nextId = 7, clock = 10, faults = fs, trace = [], tie_rank = (\<lambda>i. 0)\<rparr>"

subsection \<open>A database with two authors\<close>

definition bob :: user where
  "bob = \<lparr>user_id = ''u2'', user_email = ''b@y.org'', user_name = None,
          user_createdAt = 1\<rparr>"

definition post3 :: post where
  "post3 = \<lparr>post_id = ''p3'', post_title = ''V'', post_content = None,
            post_published = True, post_authorId = ''u2'', post_createdAt = 6\<rparr>"

definition comment3 :: comment where
  "comment3 = \<lparr>comment_id = ''c3'', comment_content = ''hm'', comment_postId = ''p3'',
               comment_authorId = ''u1'', comment_createdAt = 7\<rparr>"

text \<open>Twelve comments of the second author on the third post, at the times 20 to 31.\<close>

definition reply :: "nat \<Rightarrow> comment" where
  "reply n = \<lparr>comment_id = ''r'' @ digits n, comment_content = ''+1'',
              comment_postId = ''p3'', comment_authorId = ''u2'',
              comment_createdAt = 20 + n\<rparr>"

definition replies :: "comment list" where
  "replies = map reply [0, 1, 2, 3, 4, 5, 6, 7, 8, 9, 10, 11]"

definition forum_of :: "ext_error option list \<Rightarrow> world" where
  "forum_of fs =
     \<lparr>db_users = [alice, bob], db_posts = [post1, post2, post3],
      db_comments = [comment1, comment2, comment3] @ replies,
      nextId = 40, clock = 50, faults = fs, trace = [], tie_rank = (\<lambda>i. 0)\<rparr>"

section \<open>Lemmas\<close>

subsection \<open>Unfolding the calls\<close>

text \<open>
  A call leaves the rows alone, adds its event to the trace and takes one entry of the
  plan; what it returns depends on the head of the plan only.
\<close>

lemmas prims = prisma_user_findMany_def prisma_post_findMany_def prisma_user_findUnique_include_def
  prisma_user_findUnique_def prisma_post_findUnique_def prisma_user_create_def prisma_post_create_def
  prisma_comment_create_def revalidatePath_def accelerate_invalidate_def

lemmas examples = alice_def post1_def post2_def comment1_def comment2_def boom_def world_of_def

lemmas forum = alice_def bob_def post1_def post2_def post3_def comment1_def comment2_def
  comment3_def reply_def replies_def forum_of_def

lemma truthy_None_iff: "truthy v = None \<longleftrightarrow> v = None \<or> v = Some []"
  by (cases v) auto

lemma truthy_Some_iff: "truthy v = Some x \<longleftrightarrow> v = Some x \<and> x \<noteq> []"
  by (cases v) auto

lemma advance_fields [simp]:
  "db_users (advance ev s) = db_users s"
  "db_posts (advance ev s) = db_posts s"
  "db_comments (advance ev s) = db_comments s"
  "nextId (advance ev s) = nextId s"
  "clock (advance ev s) = clock s"
  "faults (advance ev s) = drop 1 (faults s)"
  "trace (advance ev s) = trace s @ [ev]"
  "tie_rank (advance ev s) = tie_rank s"
  by (simp_all add: advance_def emit_def)

lemma emit_fields [simp]:
  "db_users (emit ev s) = db_users s"
  "db_posts (emit ev s) = db_posts s"
  "db_comments (emit ev s) = db_comments s"
  "nextId (emit ev s) = nextId s"
  "clock (emit ev s) = clock s"
  "faults (emit ev s) = faults s"
  "trace (emit ev s) = trace s @ [ev]"
  "tie_rank (emit ev s) = tie_rank s"
  by (simp_all add: emit_def)

lemma lookups_advance [simp]:
  "user_by_id uid (advance ev s) = user_by_id uid s"
  "post_by_id pid (advance ev s) = post_by_id pid s"
  "posts_of uid (advance ev s) = posts_of uid s"
  "comments_by uid (advance ev s) = comments_by uid s"
  "comments_on pid (advance ev s) = comments_on pid s"
  "fresh_id (advance ev s) = fresh_id s"
  "user_rank (advance ev s) = user_rank s"
  "post_rank (advance ev s) = post_rank s"
  "comment_rank (advance ev s) = comment_rank s"
  by (simp_all add: user_by_id_def post_by_id_def posts_of_def comments_by_def comments_on_def
      fresh_id_def user_rank_def post_rank_def comment_rank_def fun_eq_iff)

lemma call_eq:
  "call ev serve s =
     (case next_fault (faults s) of
        Some e \<Rightarrow> (Inl (Thrown e), advance ev s)
      | None \<Rightarrow> serve (advance ev s))"
  by (simp add: call_def issue_def split: option.split)

lemmas lookups = user_by_id_def post_by_id_def posts_of_def comments_by_def comments_on_def

lemmas flow = bindE_def catchE_def returnE_def throwE_def call_eq console_error_def Let_def

subsection \<open>Failures pass through sequenced steps\<close>

text \<open>
  The property \<open>propagates\<close> holds of every call and is kept by sequencing, by
  branching and by the steps that return or throw, so it holds of every \<^verbatim>\<open>try\<close>
  block of the actions.
\<close>

lemma consumed_drop: "faults s' = drop k (faults s) \<Longrightarrow> consumed s s' = take k (faults s)"
  by (cases "k \<le> length (faults s)") (simp_all add: consumed_def)

lemma consumed_same [simp]: "consumed s s = []"
  by (simp add: consumed_def)

lemma propagates_returnE: "propagates (returnE x)"
  by (auto simp: propagates_def returnE_def intro: exI[of _ 0])

lemma propagates_throwE: "propagates (throwE x)"
  by (auto simp: propagates_def throwE_def intro: exI[of _ 0])

lemma next_fault_take1: "next_fault fs = None \<Longrightarrow> Some e \<notin> set (take 1 fs)"
  by (cases fs) auto

lemma next_fault_take1_Some: "next_fault fs = Some e' \<Longrightarrow> Some e \<in> set (take 1 fs) \<Longrightarrow> e = e'"
  by (cases fs) auto

lemma propagates_call:
  assumes "\<And>s. faults (snd (serve s)) = faults s"
  shows "propagates (call ev serve)"
  unfolding propagates_def
proof (intro allI conjI)
  fix s
  have fs: "faults (snd (call ev serve s)) = drop 1 (faults s)"
    by (simp add: call_eq assms split: option.split)
  then show "\<exists>k. faults (snd (call ev serve s)) = drop k (faults s)" by blast
  fix e
  show "Some e \<in> set (consumed s (snd (call ev serve s))) \<longrightarrow> fst (call ev serve s) = Inl (Thrown e)"
  proof
    assume "Some e \<in> set (consumed s (snd (call ev serve s)))"
    then have mem: "Some e \<in> set (take 1 (faults s))"
      by (simp only: consumed_drop[OF fs])
    show "fst (call ev serve s) = Inl (Thrown e)"
    proof (cases "next_fault (faults s)")
      case None
      with mem show ?thesis using next_fault_take1 by blast
    next
      case (Some e')
      with mem have "e = e'" using next_fault_take1_Some by blast
      with Some show ?thesis by (simp add: call_eq)
    qed
  qed
qed

lemma propagates_bindE:
  assumes m: "propagates m" and f: "\<And>x. propagates (f x)"
  shows "propagates (bindE m f)"
  unfolding propagates_def
proof (intro allI)
  fix s
  obtain r s1 where ms: "m s = (r, s1)" by (cases "m s")
  from m obtain k1 where k1: "faults s1 = drop k1 (faults s)"
    unfolding propagates_def using ms by (metis snd_conv)
  from m have p1: "\<And>e. Some e \<in> set (consumed s s1) \<Longrightarrow> r = Inl (Thrown e)"
    unfolding propagates_def using ms by (metis fst_conv snd_conv)
  show "(\<exists>k. faults (snd (bindE m f s)) = drop k (faults s)) \<and>
        (\<forall>e. Some e \<in> set (consumed s (snd (bindE m f s))) \<longrightarrow> fst (bindE m f s) = Inl (Thrown e))"
  proof (cases r)
    case (Inl x)
    then have "bindE m f s = (Inl x, s1)" by (simp add: bindE_def ms)
    with k1 p1 Inl show ?thesis by auto
  next
    case (Inr x)
    then have b: "bindE m f s = f x s1" by (simp add: bindE_def ms)
    from f[of x] obtain k2 where k2: "faults (snd (f x s1)) = drop k2 (faults s1)"
      unfolding propagates_def by blast
    from f[of x] have p2: "\<And>e. Some e \<in> set (consumed s1 (snd (f x s1))) \<Longrightarrow> fst (f x s1) = Inl (Thrown e)"
      unfolding propagates_def by blast
    have tot: "faults (snd (f x s1)) = drop (k1 + k2) (faults s)"
      by (simp add: k2 k1 add.commute)
    have none1: "Some e \<notin> set (take k1 (faults s))" for e
      using p1[of e] Inr consumed_drop[OF k1] by auto
    have "fst (f x s1) = Inl (Thrown e)" if "Some e \<in> set (consumed s (snd (f x s1)))" for e
    proof -
      from that have "Some e \<in> set (take (k1 + k2) (faults s))"
        by (simp only: consumed_drop[OF tot])
      then have "Some e \<in> set (take k1 (faults s)) \<or> Some e \<in> set (take k2 (drop k1 (faults s)))"
        by (simp add: take_add)
      with none1 have "Some e \<in> set (take k2 (faults s1))" by (simp add: k1)
      then have "Some e \<in> set (consumed s1 (snd (f x s1)))"
        by (simp only: consumed_drop[OF k2])
      then show ?thesis by (rule p2)
    qed
    with tot b show ?thesis by auto
  qed
qed

lemma propagates_if:
  "propagates m \<Longrightarrow> propagates n \<Longrightarrow> propagates (if b then m else n)"
  by simp

lemma consumed_emit [simp]: "consumed s (emit ev s') = consumed s s'"
  by (simp add: consumed_def)

lemma propagates_prims:
  "propagates (prisma_user_findMany cs)"
  "propagates (prisma_post_findMany n cs)"
  "propagates (prisma_user_findUnique_include uid cs)"
  "propagates (prisma_user_findUnique uid)"
  "propagates (prisma_post_findUnique pid)"
  "propagates (prisma_user_create email name)"
  "propagates (prisma_post_create title content published authorId)"
  "propagates (prisma_comment_create ccontent postId authorId)"
  "propagates (revalidatePath path)"
  "propagates (accelerate_invalidate tgs)"
  by (simp_all add: prims propagates_call Let_def split: option.split)

lemma propagates_case_option:
  "propagates m \<Longrightarrow> (\<And>x. propagates (f x)) \<Longrightarrow> propagates (case v of None \<Rightarrow> m | Some x \<Rightarrow> f x)"
  by (cases v) simp_all

lemmas propagates_intros = propagates_bindE propagates_if propagates_case_option
  propagates_returnE propagates_throwE propagates_prims

subsection \<open>The two shapes of catch block\<close>

text \<open>
  A \<^verbatim>\<open>catch\<close> block that logs and throws the caught error on, and one that logs
  and throws a new error with a fixed message.
\<close>

lemma rethrow_logged:
  assumes m: "propagates m"
    and e: "Some e \<in> set (consumed s (snd (catchE m (\<lambda>error. bindE (console_error msg error) (\<lambda>_. throwE error)) s)))"
  shows "fst (catchE m (\<lambda>error. bindE (console_error msg error) (\<lambda>_. throwE error)) s) = Inl (Thrown e) \<and>
         last (trace (snd (catchE m (\<lambda>error. bindE (console_error msg error) (\<lambda>_. throwE error)) s)))
           = ConsoleError msg (Thrown e)"
proof -
  obtain r s1 where ms: "m s = (r, s1)" by (cases "m s")
  from m have p: "Some e \<in> set (consumed s s1) \<Longrightarrow> r = Inl (Thrown e)"
    unfolding propagates_def using ms by (metis fst_conv snd_conv)
  show ?thesis
  proof (cases r)
    case (Inl x)
    with ms e p show ?thesis
      by (simp add: catchE_def bindE_def console_error_def throwE_def)
  next
    case (Inr x)
    with ms e p show ?thesis
      by (simp add: catchE_def)
  qed
qed

lemma generic_logged:
  assumes m: "propagates m"
    and e: "Some e \<in> set (consumed s (snd (catchE m (\<lambda>error. bindE (console_error msg error) (\<lambda>_. throwE (Error g))) s)))"
  shows "fst (catchE m (\<lambda>error. bindE (console_error msg error) (\<lambda>_. throwE (Error g))) s) = Inl (Error g) \<and>
         last (trace (snd (catchE m (\<lambda>error. bindE (console_error msg error) (\<lambda>_. throwE (Error g))) s)))
           = ConsoleError msg (Thrown e)"
proof -
  obtain r s1 where ms: "m s = (r, s1)" by (cases "m s")
  from m have p: "Some e \<in> set (consumed s s1) \<Longrightarrow> r = Inl (Thrown e)"
    unfolding propagates_def using ms by (metis fst_conv snd_conv)
  show ?thesis
  proof (cases r)
    case (Inl x)
    with ms e p show ?thesis
      by (simp add: catchE_def bindE_def console_error_def throwE_def)
  next
    case (Inr x)
    with ms e p show ?thesis
      by (simp add: catchE_def)
  qed
qed

subsection \<open>A failing collaborator, action by action\<close>

lemma getUsers_failure:
  "Some e \<in> set (consumed s (snd (getUsers s))) \<Longrightarrow>
     fst (getUsers s) = Inl (Error ''Failed to fetch users'') \<and>
     last (trace (snd (getUsers s))) = ConsoleError ''Error fetching users:'' (Thrown e)"
  unfolding getUsers_def
  by (rule generic_logged) (intro propagates_intros)

lemma getPosts_failure:
  "Some e \<in> set (consumed s (snd (getPosts l s))) \<Longrightarrow>
     fst (getPosts l s) = Inl (Error ''Failed to fetch posts'') \<and>
     last (trace (snd (getPosts l s))) = ConsoleError ''Error fetching posts: '' (Thrown e)"
  unfolding getPosts_def Let_def
  by (rule generic_logged) (intro propagates_intros)

lemma getUserById_failure:
  "Some e \<in> set (consumed s (snd (getUserById uid s))) \<Longrightarrow>
     fst (getUserById uid s) = Inl (Thrown e) \<and>
     last (trace (snd (getUserById uid s))) =
       ConsoleError (''Error fetching user with ID '' @ uid @ '':'') (Thrown e)"
  unfolding getUserById_def
  by (rule rethrow_logged) (intro propagates_intros)

lemma createPost_failure:
  assumes "Some e \<in> set (consumed s (snd (createPost a s)))"
  shows "fst (createPost a s) = Inl (Thrown e) \<and>
     last (trace (snd (createPost a s))) = ConsoleError ''Error creating post:'' (Thrown e)"
proof (cases "truthy (cp_title a)")
  case None
  with assms show ?thesis by (simp add: createPost_def throwE_def)
next
  case t: (Some title)
  show ?thesis
  proof (cases "truthy (cp_authorId a)")
    case None
    with t assms show ?thesis by (simp add: createPost_def throwE_def)
  next
    case (Some authorId)
    with t assms show ?thesis
      unfolding createPost_def Let_def
      by (simp only: option.case prod.case) (rule rethrow_logged, (intro propagates_intros)+)
  qed
qed

lemma createComment_failure:
  assumes "Some e \<in> set (consumed s (snd (createComment a s)))"
  shows "fst (createComment a s) = Inl (Thrown e) \<and>
     last (trace (snd (createComment a s))) = ConsoleError ''Error creating comment:'' (Thrown e)"
proof (cases "truthy (cm_content a)")
  case None
  with assms show ?thesis by (simp add: createComment_def throwE_def)
next
  case c: (Some content)
  show ?thesis
  proof (cases "truthy (cm_postId a)")
    case None
    with c assms show ?thesis by (simp add: createComment_def throwE_def)
  next
    case p: (Some postId)
    show ?thesis
    proof (cases "truthy (cm_authorId a)")
      case None
      with c p assms show ?thesis by (simp add: createComment_def throwE_def)
    next
      case (Some authorId)
      with c p assms show ?thesis
        unfolding createComment_def
        by (simp only: option.case prod.case) (rule rethrow_logged, (intro propagates_intros)+)
    qed
  qed
qed

lemma createUser_never_thrown: "fst (createUser a s) \<noteq> Inl (Thrown e)"
  by (simp add: createUser_def catchE_def throwE_def split: option.split prod.split sum.split)
lemma createUser_failure:
  assumes e: "Some e \<in> set (consumed s (snd (createUser a s)))"
  shows "fst (createUser a s) =
     Inl (Error (if ext_code e = Some ''P2002'' then ''A user with this email already exists''
                 else ''Failed to create user''))"
proof (cases "truthy (cu_email a)")
  case None
  with e show ?thesis by (simp add: createUser_def throwE_def)
next
  case (Some email)
  define body where "body = bindE (prisma_user_create email (cu_name a)) (\<lambda>user.
             bindE (revalidatePath ''/'') (\<lambda>_. returnE user))"
  have pb: "propagates body" unfolding body_def by (intro propagates_intros)
  obtain r s1 where ms: "body s = (r, s1)" by (cases "body s")
  from pb have p: "Some e \<in> set (consumed s s1) \<Longrightarrow> r = Inl (Thrown e)"
    unfolding propagates_def using ms by (metis fst_conv snd_conv)
  show ?thesis
  proof (cases r)
    case (Inl x)
    with ms e p Some show ?thesis
      by (auto simp: createUser_def catchE_def throwE_def body_def[symmetric] split: if_splits)
  next
    case (Inr x)
    with ms e p Some show ?thesis
      by (simp add: createUser_def catchE_def body_def[symmetric])
  qed
qed

subsection \<open>Ordering and cutting\<close>

lemma newest_first_order_desc: "newest_first key (order_desc rank key xs)"
proof -
  let ?neg = "\<lambda>x. - int (key x)"
  have "sorted (map ?neg (sort_key ?neg (sort_key rank xs)))" by simp
  then have "sorted_wrt (\<lambda>a b. ?neg a \<le> ?neg b) (sort_key ?neg (sort_key rank xs))"
    by (simp only: sorted_map)
  then show ?thesis
    by (simp add: newest_first_def order_desc_def)
qed

lemma newest_first_take: "newest_first key xs \<Longrightarrow> newest_first key (take n xs)"
  by (simp add: newest_first_def sorted_wrt_take)

lemma mset_order_desc [simp]: "mset (order_desc rank key xs) = mset xs"
  by (simp add: order_desc_def)

lemma set_order_desc [simp]: "set (order_desc rank key xs) = set xs"
  by (simp add: order_desc_def)

lemma length_order_desc [simp]: "length (order_desc rank key xs) = length xs"
  by (simp add: order_desc_def)

lemma take_rows_nonneg: "0 \<le> n \<Longrightarrow> take_rows n xs = take (nat n) xs"
  by (simp add: take_rows_def)

text \<open>What a cut of a list leaves out, as a multiset, is the rest of the list.\<close>

lemma mset_left_out:
  assumes "mset ys = mset xs"
  shows "mset xs - mset (take n ys) = mset (drop n ys)"
proof -
  have "mset (take n ys) + mset (drop n ys) = mset ys"
    by (simp only: mset_append[symmetric] append_take_drop_id)
  with assms have "mset xs = mset (take n ys) + mset (drop n ys)" by simp
  then show ?thesis by (metis add_diff_cancel_left')
qed

lemma mset_take_subset:
  assumes "mset ys = mset xs"
  shows "mset (take n ys) \<subseteq># mset xs"
proof -
  have "mset (take n ys) + mset (drop n ys) = mset ys"
    by (simp only: mset_append[symmetric] append_take_drop_id)
  with assms have "mset xs = mset (take n ys) + mset (drop n ys)" by simp
  then show ?thesis by (metis mset_subset_eq_add_left)
qed

lemma newest_first_cut:
  assumes "newest_first key xs" "c \<in> set (drop n xs)" "c' \<in> set (take n xs)"
  shows "key c \<le> key c'"
proof -
  have "sorted_wrt (\<lambda>a b. key b \<le> key a) (take n xs @ drop n xs)"
    using assms(1) by (simp add: newest_first_def)
  then have "\<forall>a\<in>set (take n xs). \<forall>b\<in>set (drop n xs). key b \<le> key a"
    unfolding sorted_wrt_append by blast
  with assms(2,3) show ?thesis by blast
qed

subsection \<open>Reads that the store serves, and lookups\<close>

lemma getUserById_served:
  "next_fault (faults s) = None \<Longrightarrow>
   fst (getUserById uid s) =
     (case user_by_id uid s of
        None \<Rightarrow> Inl (Error ''User not found'')
      | Some u \<Rightarrow>
          Inr \<lparr>ud_user = u,
               ud_posts = order_desc (post_rank s) post_createdAt (posts_of uid s),
               ud_comments =
                 take 10 (order_desc (comment_rank s) comment_createdAt (comments_by uid s)),
               ud_count_comments = length (comments_by uid s),
               ud_count_posts = length (posts_of uid s)\<rparr>)"
  by (simp add: getUserById_def flow prims take_rows_nonneg split: option.split)

lemma user_by_id_Some: "user_by_id uid s = Some u \<Longrightarrow> user_id u = uid \<and> u \<in> set (db_users s)"
  by (auto simp: user_by_id_def find_Some_iff)

lemma user_by_id_None: "user_by_id uid s = None \<longleftrightarrow> uid \<notin> user_id ` set (db_users s)"
  by (auto simp: user_by_id_def find_None_iff)

lemma post_by_id_None: "post_by_id pid s = None \<longleftrightarrow> pid \<notin> post_id ` set (db_posts s)"
  by (auto simp: post_by_id_def find_None_iff)

lemma getPosts_served:
  "next_fault (faults s) = None \<Longrightarrow> accepted_int (default_to (Integral 5) l) = Some i \<Longrightarrow>
   fst (getPosts l s) =
     Inr (map (\<lambda>p. \<lparr>pl_post = p,
                        pl_author = user_by_id (post_authorId p) s,
                        pl_comments =
                          map (\<lambda>c. \<lparr>cwa_comment = c,
                                     cwa_author = user_by_id (comment_authorId c) s\<rparr>)
                              (order_desc (comment_rank s) comment_createdAt
                                 (comments_on (post_id p) s)),
                        pl_count_comments = length (comments_on (post_id p) s)\<rparr>)
                 (take_rows i (order_desc (post_rank s) post_createdAt (db_posts s))))"
  by (simp add: getPosts_def flow prims)

lemma getPosts_refused:
  "accepted_int (default_to (Integral 5) l) = None \<Longrightarrow>
   fst (getPosts l s) = Inl (Error ''Failed to fetch posts'')"
  by (simp add: getPosts_def flow prims split: option.split)

section \<open>The claims\<close>

text \<open>
  C1 (as amended). A failure of a collaborator during \<^verbatim>\<open>getUsers\<close> or
  \<^verbatim>\<open>getPosts\<close> is logged and a generic error is raised in its place.
  \<^verbatim>\<open>createUser\<close> never lets a collaborator's error object reach the caller: a
  failure becomes the duplicate-email error when its code is \<^verbatim>\<open>P2002\<close> and
  \<^verbatim>\<open>Failed to create user\<close> otherwise. \<^verbatim>\<open>getUserById\<close>, \<^verbatim>\<open>createPost\<close> and
  \<^verbatim>\<open>createComment\<close> log the failure and throw the caught error object on,
  unchanged: the caller receives the collaborator's own error.
\<close>

theorem store_failure_handling:
  "(Some e \<in> set (consumed s (snd (getUsers s))) \<longrightarrow>
      fst (getUsers s) = Inl (Error ''Failed to fetch users'') \<and>
      last (trace (snd (getUsers s))) = ConsoleError ''Error fetching users:'' (Thrown e)) \<and>
   (Some e \<in> set (consumed s (snd (getPosts l s))) \<longrightarrow>
      fst (getPosts l s) = Inl (Error ''Failed to fetch posts'') \<and>
      last (trace (snd (getPosts l s))) = ConsoleError ''Error fetching posts: '' (Thrown e)) \<and>
   fst (createUser u s) \<noteq> Inl (Thrown e) \<and>
   (Some e \<in> set (consumed s (snd (createUser u s))) \<longrightarrow>
      fst (createUser u s) =
        Inl (Error (if ext_code e = Some ''P2002''
                    then ''A user with this email already exists''
                    else ''Failed to create user''))) \<and>
   (Some e \<in> set (consumed s (snd (getUserById uid s))) \<longrightarrow>
      fst (getUserById uid s) = Inl (Thrown e) \<and>
      last (trace (snd (getUserById uid s))) =
        ConsoleError (''Error fetching user with ID '' @ uid @ '':'') (Thrown e)) \<and>
   (Some e \<in> set (consumed s (snd (createPost p s))) \<longrightarrow>
      fst (createPost p s) = Inl (Thrown e) \<and>
      last (trace (snd (createPost p s))) = ConsoleError ''Error creating post:'' (Thrown e)) \<and>
   (Some e \<in> set (consumed s (snd (createComment c s))) \<longrightarrow>
      fst (createComment c s) = Inl (Thrown e) \<and>
      last (trace (snd (createComment c s))) =
        ConsoleError ''Error creating comment:'' (Thrown e))"
  using getUsers_failure[of e s] getPosts_failure[of e s l] createUser_never_thrown[of u s e]
    createUser_failure[of e s u] getUserById_failure[of e s uid] createPost_failure[of e s p]
    createComment_failure[of e s c]
  by blast

theorem store_failure_handling_witness:
  "fst (getUsers (world_of [Some boom])) = Inl (Error ''Failed to fetch users'') \<and>
   last (trace (snd (getUsers (world_of [Some boom])))) =
     ConsoleError ''Error fetching users:'' (Thrown boom) \<and>
   fst (getPosts None (world_of [Some boom])) = Inl (Error ''Failed to fetch posts'') \<and>
   fst (createUser \<lparr>cu_email = Some ''b@x.com'', cu_name = None\<rparr> (world_of [Some boom])) =
     Inl (Error ''Failed to create user'') \<and>
   fst (getUserById ''u1'' (world_of [Some boom])) = Inl (Thrown boom) \<and>
   last (trace (snd (getUserById ''u1'' (world_of [Some boom])))) =
     ConsoleError ''Error fetching user with ID u1:'' (Thrown boom) \<and>
   fst (createPost \<lparr>cp_title = Some ''T2'', cp_content = None, cp_authorId = Some ''u1'',
                    cp_published = None\<rparr> (world_of [Some boom])) = Inl (Thrown boom) \<and>
   fst (createComment \<lparr>cm_content = Some ''yo'', cm_postId = Some ''p1'',
                       cm_authorId = Some ''u1''\<rparr> (world_of [Some boom])) = Inl (Thrown boom)"
proof -
  let ?w = "world_of [Some boom]"
  let ?u = "\<lparr>cu_email = Some ''b@x.com'', cu_name = None\<rparr>"
  let ?p = "\<lparr>cp_title = Some ''T2'', cp_content = None, cp_authorId = Some ''u1'',
             cp_published = None\<rparr>"
  let ?c = "\<lparr>cm_content = Some ''yo'', cm_postId = Some ''p1'', cm_authorId = Some ''u1''\<rparr>"
  have h1: "Some boom \<in> set (consumed ?w (snd (getUsers ?w)))"
    by (simp add: getUsers_def flow prims consumed_def world_of_def)
  have h2: "Some boom \<in> set (consumed ?w (snd (getPosts None ?w)))"
    by (simp add: getPosts_def flow prims consumed_def world_of_def)
  have h3: "Some boom \<in> set (consumed ?w (snd (createUser ?u ?w)))"
    by (simp add: createUser_def flow prims consumed_def world_of_def)
  have h4: "Some boom \<in> set (consumed ?w (snd (getUserById ''u1'' ?w)))"
    by (simp add: getUserById_def flow prims consumed_def world_of_def)
  have h5: "Some boom \<in> set (consumed ?w (snd (createPost ?p ?w)))"
    by (simp add: createPost_def flow prims consumed_def world_of_def)
  have h6: "Some boom \<in> set (consumed ?w (snd (createComment ?c ?w)))"
    by (simp add: createComment_def flow prims consumed_def world_of_def)
  have code: "ext_code boom \<noteq> Some ''P2002''"
    by (simp add: boom_def)
  from store_failure_handling[of boom ?w None ?u "''u1''" ?p ?c] h1 h2 h3 h4 h5 h6 code
  show ?thesis by simp
qed

theorem store_error_reaches_caller:
  "fst (getUserById ''u1'' (world_of [Some boom])) = Inl (Thrown boom) \<and>
   fst (createPost \<lparr>cp_title = Some ''T2'', cp_content = None, cp_authorId = Some ''u1'',
                    cp_published = None\<rparr> (world_of [None, Some boom])) = Inl (Thrown boom) \<and>
   fst (createComment \<lparr>cm_content = Some ''yo'', cm_postId = Some ''p1'',
                       cm_authorId = Some ''u1''\<rparr> (world_of [None, None, Some boom])) =
     Inl (Thrown boom)"
  by (simp add: getUserById_def createPost_def createComment_def flow prims lookups examples)

text \<open>
  C2. \<^verbatim>\<open>createComment\<close> with content, post id and author id present, for a post that
  exists: the call never fails with \<^verbatim>\<open>Post not found\<close>. When in addition no user
  has the author id, no insert is issued and no row is written, whatever the environment
  does, and when both lookups are served the call fails with \<^verbatim>\<open>Author not found\<close>.
\<close>

theorem createComment_missing_author:
  assumes "cm_content a = Some content" and "content \<noteq> []"
    and "cm_postId a = Some pid" and "pid \<noteq> []"
    and "cm_authorId a = Some aid" and "aid \<noteq> []"
    and "pid \<in> post_id ` set (db_posts s)"
  shows "fst (createComment a s) \<noteq> Inl (Error ''Post not found'') \<and>
         (aid \<notin> user_id ` set (db_users s) \<longrightarrow>
            db_comments (snd (createComment a s)) = db_comments s \<and>
            db_posts (snd (createComment a s)) = db_posts s \<and>
            db_users (snd (createComment a s)) = db_users s \<and>
            Create ''comment'' \<notin> set (issued s (snd (createComment a s))) \<and>
            (next_fault (faults s) = None \<and> next_fault (drop 1 (faults s)) = None \<longrightarrow>
               fst (createComment a s) = Inl (Error ''Author not found'')))"
proof -
  have t: "truthy (cm_content a) = Some content" "truthy (cm_postId a) = Some pid"
      "truthy (cm_authorId a) = Some aid"
    using assms by (simp_all add: truthy_Some_iff)
  obtain p where p: "post_by_id pid s = Some p"
    using assms(7) post_by_id_None[of pid s] by (cases "post_by_id pid s") auto
  have 1: "fst (createComment a s) \<noteq> Inl (Error ''Post not found'')"
    by (simp add: createComment_def t p flow prims split: option.split)
  have 2: "db_comments (snd (createComment a s)) = db_comments s \<and>
            db_posts (snd (createComment a s)) = db_posts s \<and>
            db_users (snd (createComment a s)) = db_users s \<and>
            Create ''comment'' \<notin> set (issued s (snd (createComment a s))) \<and>
            (next_fault (faults s) = None \<and> next_fault (drop 1 (faults s)) = None \<longrightarrow>
               fst (createComment a s) = Inl (Error ''Author not found''))"
    if "aid \<notin> user_id ` set (db_users s)"
  proof -
    from that have u: "user_by_id aid s = None" by (simp add: user_by_id_None)
    show ?thesis
      by (simp add: createComment_def t p u flow prims issued_def split: option.split)
  qed
  from 1 2 show ?thesis by blast
qed

theorem createComment_missing_author_witness:
  "fst (createComment \<lparr>cm_content = Some ''yo'', cm_postId = Some ''p1'',
                       cm_authorId = Some ''nobody''\<rparr> (world_of [])) =
     Inl (Error ''Author not found'') \<and>
   db_comments (snd (createComment \<lparr>cm_content = Some ''yo'', cm_postId = Some ''p1'',
                                    cm_authorId = Some ''nobody''\<rparr> (world_of []))) =
     [comment1, comment2]"
  using createComment_missing_author
    [of "\<lparr>cm_content = Some ''yo'', cm_postId = Some ''p1'', cm_authorId = Some ''nobody''\<rparr>"
        "''yo''" "''p1''" "''nobody''" "world_of []"]
  by (simp add: examples)

text \<open>
  C3. \<^verbatim>\<open>createPost\<close> with title and author id present: an insert is only ever issued
  after the lookup of the author, and only when the lookup found a row. When no user has
  the author id, no insert is issued and no row is written, whatever the environment
  does, and when the lookup is served the call fails with \<^verbatim>\<open>Author not found\<close>,
  having issued the lookup and logged the error, nothing else.
\<close>

theorem createPost_missing_author:
  assumes "cp_title a = Some title" and "title \<noteq> []"
    and "cp_authorId a = Some aid" and "aid \<noteq> []"
  shows "(Create ''post'' \<in> set (issued s (snd (createPost a s))) \<longrightarrow>
            take 2 (issued s (snd (createPost a s))) = [FindUnique ''user'' aid None, Create ''post''] \<and>
            aid \<in> user_id ` set (db_users s)) \<and>
         (aid \<notin> user_id ` set (db_users s) \<longrightarrow>
            db_posts (snd (createPost a s)) = db_posts s \<and>
            db_users (snd (createPost a s)) = db_users s \<and>
            db_comments (snd (createPost a s)) = db_comments s \<and>
            Create ''post'' \<notin> set (issued s (snd (createPost a s))) \<and>
            (next_fault (faults s) = None \<longrightarrow>
               fst (createPost a s) = Inl (Error ''Author not found'') \<and>
               issued s (snd (createPost a s)) =
                 [FindUnique ''user'' aid None,
                  ConsoleError ''Error creating post:'' (Error ''Author not found'')]))"
proof -
  have t: "truthy (cp_title a) = Some title" "truthy (cp_authorId a) = Some aid"
    using assms by (simp_all add: truthy_Some_iff)
  have 1: "take 2 (issued s (snd (createPost a s))) = [FindUnique ''user'' aid None, Create ''post''] \<and>
            aid \<in> user_id ` set (db_users s)"
    if "Create ''post'' \<in> set (issued s (snd (createPost a s)))"
    using that
    by (cases "user_by_id aid s = None")
       (simp_all add: createPost_def t flow prims issued_def user_by_id_None split: option.split_asm option.split)
  have 2: "db_posts (snd (createPost a s)) = db_posts s \<and>
            db_users (snd (createPost a s)) = db_users s \<and>
            db_comments (snd (createPost a s)) = db_comments s \<and>
            Create ''post'' \<notin> set (issued s (snd (createPost a s))) \<and>
            (next_fault (faults s) = None \<longrightarrow>
               fst (createPost a s) = Inl (Error ''Author not found'') \<and>
               issued s (snd (createPost a s)) =
                 [FindUnique ''user'' aid None,
                  ConsoleError ''Error creating post:'' (Error ''Author not found'')])"
    if "aid \<notin> user_id ` set (db_users s)"
  proof -
    from that have u: "user_by_id aid s = None" by (simp add: user_by_id_None)
    show ?thesis
      using u by (simp add: createPost_def t flow prims issued_def split: option.split)
  qed
  from 1 2 show ?thesis by blast
qed

theorem createPost_missing_author_witness:
  "fst (createPost \<lparr>cp_title = Some ''T2'', cp_content = None,
                    cp_authorId = Some ''does-not-exist'', cp_published = None\<rparr>
          (world_of [])) = Inl (Error ''Author not found'') \<and>
   db_posts (snd (createPost \<lparr>cp_title = Some ''T2'', cp_content = None,
                    cp_authorId = Some ''does-not-exist'', cp_published = None\<rparr>
          (world_of []))) = [post1, post2] \<and>
   issued (world_of []) (snd (createPost \<lparr>cp_title = Some ''T2'', cp_content = None,
                    cp_authorId = Some ''does-not-exist'', cp_published = None\<rparr>
          (world_of []))) =
     [FindUnique ''user'' ''does-not-exist'' None,
      ConsoleError ''Error creating post:'' (Error ''Author not found'')]"
  using createPost_missing_author
    [of "\<lparr>cp_title = Some ''T2'', cp_content = None, cp_authorId = Some ''does-not-exist'',
          cp_published = None\<rparr>"
        "''T2''" "''does-not-exist''" "world_of []"]
  by (simp add: examples)

text \<open>
  C4. \<^verbatim>\<open>getUserById\<close>, when the store serves the query: if no user has the id the
  call fails with \<^verbatim>\<open>User not found\<close>; if one has, the call returns that user, with
  exactly the posts whose author it is, newest first, with ten of the comments whose
  author it is (all of them when they are fewer), newest first and none left out being
  newer than one returned, and with the numbers of all its comments and of its posts.
\<close>

theorem getUserById_result:
  assumes "next_fault (faults s) = None"
  shows "(uid \<notin> user_id ` set (db_users s) \<longrightarrow>
            fst (getUserById uid s) = Inl (Error ''User not found'')) \<and>
         (uid \<in> user_id ` set (db_users s) \<longrightarrow>
            (\<exists>r. fst (getUserById uid s) = Inr r \<and>
               find (\<lambda>u. user_id u = uid) (db_users s) = Some (ud_user r) \<and>
               ud_user r \<in> set (db_users s) \<and> user_id (ud_user r) = uid \<and>
               mset (ud_posts r) = mset (filter (\<lambda>p. post_authorId p = uid) (db_posts s)) \<and>
               newest_first post_createdAt (ud_posts r) \<and>
               mset (ud_comments r) \<subseteq>#
                 mset (filter (\<lambda>c. comment_authorId c = uid) (db_comments s)) \<and>
               length (ud_comments r) =
                 min 10 (length (filter (\<lambda>c. comment_authorId c = uid) (db_comments s))) \<and>
               newest_first comment_createdAt (ud_comments r) \<and>
               (\<forall>c \<in># mset (filter (\<lambda>c. comment_authorId c = uid) (db_comments s)) -
                        mset (ud_comments r).
                  \<forall>c' \<in> set (ud_comments r). comment_createdAt c \<le> comment_createdAt c') \<and>
               ud_count_comments r =
                 length (filter (\<lambda>c. comment_authorId c = uid) (db_comments s)) \<and>
               ud_count_posts r =
                 length (filter (\<lambda>p. post_authorId p = uid) (db_posts s))))"
proof (intro conjI impI)
  assume "uid \<notin> user_id ` set (db_users s)"
  then have "user_by_id uid s = None" by (simp add: user_by_id_None)
  then show "fst (getUserById uid s) = Inl (Error ''User not found'')"
    by (simp add: getUserById_served[OF assms])
next
  assume "uid \<in> user_id ` set (db_users s)"
  then obtain u where u: "user_by_id uid s = Some u"
    using user_by_id_None[of uid s] by (cases "user_by_id uid s") auto
  let ?own_posts = "filter (\<lambda>p. post_authorId p = uid) (db_posts s)"
  let ?own = "filter (\<lambda>c. comment_authorId c = uid) (db_comments s)"
  let ?cs = "order_desc (comment_rank s) comment_createdAt ?own"
  let ?r = "\<lparr>ud_user = u,
             ud_posts = order_desc (post_rank s) post_createdAt ?own_posts,
             ud_comments = take 10 ?cs,
             ud_count_comments = length ?own,
             ud_count_posts = length ?own_posts\<rparr>"
  have r: "fst (getUserById uid s) = Inr ?r"
    by (simp add: getUserById_served[OF assms] u posts_of_def comments_by_def)
  have found: "find (\<lambda>u. user_id u = uid) (db_users s) = Some u"
    using u by (simp add: user_by_id_def)
  have perm: "mset ?cs = mset ?own" by simp
  have sub: "mset (take 10 ?cs) \<subseteq># mset ?own"
    by (rule mset_take_subset[OF perm])
  have len: "length (take 10 ?cs) = min 10 (length ?own)"
    by (simp add: min.commute)
  have cut: "\<forall>c \<in># mset ?own - mset (take 10 ?cs).
               \<forall>c' \<in> set (take 10 ?cs). comment_createdAt c \<le> comment_createdAt c'"
    unfolding mset_left_out[OF perm]
    using newest_first_cut[OF newest_first_order_desc, of _ 10 "comment_rank s"
        comment_createdAt ?own]
    by auto
  show "\<exists>r. fst (getUserById uid s) = Inr r \<and>
               find (\<lambda>u. user_id u = uid) (db_users s) = Some (ud_user r) \<and>
               ud_user r \<in> set (db_users s) \<and> user_id (ud_user r) = uid \<and>
               mset (ud_posts r) = mset (filter (\<lambda>p. post_authorId p = uid) (db_posts s)) \<and>
               newest_first post_createdAt (ud_posts r) \<and>
               mset (ud_comments r) \<subseteq>#
                 mset (filter (\<lambda>c. comment_authorId c = uid) (db_comments s)) \<and>
               length (ud_comments r) =
                 min 10 (length (filter (\<lambda>c. comment_authorId c = uid) (db_comments s))) \<and>
               newest_first comment_createdAt (ud_comments r) \<and>
               (\<forall>c \<in># mset (filter (\<lambda>c. comment_authorId c = uid) (db_comments s)) -
                        mset (ud_comments r).
                  \<forall>c' \<in> set (ud_comments r). comment_createdAt c \<le> comment_createdAt c') \<and>
               ud_count_comments r =
                 length (filter (\<lambda>c. comment_authorId c = uid) (db_comments s)) \<and>
               ud_count_posts r =
                 length (filter (\<lambda>p. post_authorId p = uid) (db_posts s))"
    apply (rule exI[of _ ?r])
    using r found sub len cut user_by_id_Some[OF u]
    by (simp add: newest_first_order_desc newest_first_take)
qed

theorem getUserById_result_witness:
  "(\<exists>r. fst (getUserById ''u2'' (forum_of [])) = Inr r \<and> ud_user r = bob \<and>
      ud_posts r = [post3] \<and> length (ud_comments r) = 10 \<and>
      set (ud_comments r) \<subseteq> set replies \<and>
      ud_count_comments r = 12 \<and> ud_count_posts r = 1) \<and>
   fst (getUserById ''nobody'' (forum_of [])) = Inl (Error ''User not found'')"
proof -
  have served: "next_fault (faults (forum_of [])) = None"
    by (simp add: forum_of_def)
  have users: "user_id ` set (db_users (forum_of [])) = {''u1'', ''u2''}"
    by (simp add: forum)
  have found: "find (\<lambda>u. user_id u = ''u2'') (db_users (forum_of [])) = Some bob"
    by (simp add: forum)
  have posts: "filter (\<lambda>p. post_authorId p = ''u2'') (db_posts (forum_of [])) = [post3]"
    by (simp add: forum)
  have comments:
    "filter (\<lambda>c. comment_authorId c = ''u2'') (db_comments (forum_of [])) = replies"
    by (simp add: forum)
  have twelve: "length replies = 12"
    by (simp add: replies_def)
  from getUserById_result[OF served, of "''nobody''"] users
  have absent: "fst (getUserById ''nobody'' (forum_of [])) = Inl (Error ''User not found'')"
    by simp
  from getUserById_result[OF served, of "''u2''"] users
  obtain r where r: "fst (getUserById ''u2'' (forum_of [])) = Inr r"
      "find (\<lambda>u. user_id u = ''u2'') (db_users (forum_of [])) = Some (ud_user r)"
      "mset (ud_posts r) =
         mset (filter (\<lambda>p. post_authorId p = ''u2'') (db_posts (forum_of [])))"
      "mset (ud_comments r) \<subseteq>#
         mset (filter (\<lambda>c. comment_authorId c = ''u2'') (db_comments (forum_of [])))"
      "length (ud_comments r) =
         min 10 (length (filter (\<lambda>c. comment_authorId c = ''u2'') (db_comments (forum_of []))))"
      "ud_count_comments r =
         length (filter (\<lambda>c. comment_authorId c = ''u2'') (db_comments (forum_of [])))"
      "ud_count_posts r =
         length (filter (\<lambda>p. post_authorId p = ''u2'') (db_posts (forum_of [])))"
    by auto
  from r(2) found have 1: "ud_user r = bob" by simp
  from r(3) posts have 2: "ud_posts r = [post3]" by simp
  from r(5) comments twelve have 3: "length (ud_comments r) = 10" by simp
  from r(4) comments have 4: "set (ud_comments r) \<subseteq> set replies"
    using set_mset_mono by fastforce
  from r(6,7) posts comments twelve
  have 5: "ud_count_comments r = 12" "ud_count_posts r = 1" by simp_all
  from r(1) 1 2 3 4 5 absent show ?thesis by blast
qed

text \<open>
  C5 (as amended). \<^verbatim>\<open>getPosts\<close> with a limit that is an integer, not negative and
  below \<open>2 ^ 63\<close>, when the store serves the query: the call returns as many posts as
  the limit says (all of them when they are fewer), newest first, none left out being
  newer than one returned; each comes with the user that its author id names, with
  exactly the comments on it, newest first, each of them with the user that its author
  id names, and with the number of the comments on it. Called without an argument the
  action behaves as with the limit 5.
\<close>

theorem getPosts_result:
  assumes "next_fault (faults s) = None" and "0 \<le> limit" and "limit < 2 ^ 63"
  shows "\<exists>ps. fst (getPosts (Some (Integral limit)) s) = Inr ps \<and>
           int (length ps) \<le> limit \<and>
           length ps = min (nat limit) (length (db_posts s)) \<and>
           mset (map pl_post ps) \<subseteq># mset (db_posts s) \<and>
           newest_first (post_createdAt \<circ> pl_post) ps \<and>
           (\<forall>q \<in># mset (db_posts s) - mset (map pl_post ps).
              \<forall>p \<in> set ps. post_createdAt q \<le> post_createdAt (pl_post p)) \<and>
           (\<forall>p \<in> set ps.
              pl_author p = find (\<lambda>u. user_id u = post_authorId (pl_post p)) (db_users s) \<and>
              mset (map cwa_comment (pl_comments p)) =
                mset (filter (\<lambda>c. comment_postId c = post_id (pl_post p)) (db_comments s)) \<and>
              newest_first (comment_createdAt \<circ> cwa_comment) (pl_comments p) \<and>
              (\<forall>c \<in> set (pl_comments p).
                 cwa_author c =
                   find (\<lambda>u. user_id u = comment_authorId (cwa_comment c)) (db_users s)) \<and>
              pl_count_comments p =
                length (filter (\<lambda>c. comment_postId c = post_id (pl_post p)) (db_comments s))) \<and>
           getPosts None s = getPosts (Some (Integral 5)) s"
proof -
  let ?all = "order_desc (post_rank s) post_createdAt (db_posts s)"
  let ?rows = "take (nat limit) ?all"
  let ?f = "\<lambda>p. \<lparr>pl_post = p,
                 pl_author = user_by_id (post_authorId p) s,
                 pl_comments =
                   map (\<lambda>c. \<lparr>cwa_comment = c,
                              cwa_author = user_by_id (comment_authorId c) s\<rparr>)
                       (order_desc (comment_rank s) comment_createdAt
                          (comments_on (post_id p) s)),
                 pl_count_comments = length (comments_on (post_id p) s)\<rparr>"
  have acc: "accepted_int (default_to (Integral 5) (Some (Integral limit))) = Some limit"
    using assms(2,3) by simp
  have r: "fst (getPosts (Some (Integral limit)) s) = Inr (map ?f ?rows)"
    by (simp add: getPosts_served[OF assms(1) acc] take_rows_nonneg[OF assms(2)])
  have posts: "map pl_post (map ?f ?rows) = ?rows"
    by (simp add: comp_def)
  have perm: "mset ?all = mset (db_posts s)" by simp
  have len: "length (map ?f ?rows) = min (nat limit) (length (db_posts s))"
    by (simp add: min.commute)
  have len': "int (length (map ?f ?rows)) \<le> limit"
    using assms(2) by simp
  have sub: "mset (map pl_post (map ?f ?rows)) \<subseteq># mset (db_posts s)"
    unfolding posts by (rule mset_take_subset[OF perm])
  have sorted: "newest_first (post_createdAt \<circ> pl_post) (map ?f ?rows)"
    using newest_first_take[OF newest_first_order_desc, of post_createdAt "nat limit"
        "post_rank s" "db_posts s"]
    by (simp add: newest_first_def sorted_wrt_map)
  have cut: "\<forall>q \<in># mset (db_posts s) - mset (map pl_post (map ?f ?rows)).
              \<forall>p \<in> set (map ?f ?rows). post_createdAt q \<le> post_createdAt (pl_post p)"
    unfolding posts mset_left_out[OF perm]
    using newest_first_cut[OF newest_first_order_desc, of _ "nat limit" "post_rank s"
        post_createdAt "db_posts s"]
    by auto
  have each: "\<forall>p \<in> set (map ?f ?rows).
              pl_author p = find (\<lambda>u. user_id u = post_authorId (pl_post p)) (db_users s) \<and>
              mset (map cwa_comment (pl_comments p)) =
                mset (filter (\<lambda>c. comment_postId c = post_id (pl_post p)) (db_comments s)) \<and>
              newest_first (comment_createdAt \<circ> cwa_comment) (pl_comments p) \<and>
              (\<forall>c \<in> set (pl_comments p).
                 cwa_author c =
                   find (\<lambda>u. user_id u = comment_authorId (cwa_comment c)) (db_users s)) \<and>
              pl_count_comments p =
                length (filter (\<lambda>c. comment_postId c = post_id (pl_post p)) (db_comments s))"
    using newest_first_order_desc[of comment_createdAt "comment_rank s"]
    by (auto simp: comp_def newest_first_def sorted_wrt_map user_by_id_def comments_on_def
        multiset.map_comp)
  have dflt: "getPosts None s = getPosts (Some (Integral 5)) s"
    by (simp add: getPosts_def)
  from r len' len sub sorted cut each dflt show ?thesis by blast
qed

theorem getPosts_result_witness:
  "(\<exists>p. fst (getPosts (Some (Integral 1)) (forum_of [])) = Inr [p] \<and> pl_post p = post3 \<and>
      pl_author p = Some bob \<and> length (pl_comments p) = 13 \<and> pl_count_comments p = 13) \<and>
   getPosts None (forum_of []) = getPosts (Some (Integral 5)) (forum_of [])"
proof -
  have served: "next_fault (faults (forum_of [])) = None"
    by (simp add: forum_of_def)
  have all: "db_posts (forum_of []) = [post1, post2, post3]"
    by (simp add: forum_of_def)
  have times: "post_createdAt post1 = 2" "post_createdAt post2 = 4" "post_createdAt post3 = 6"
    by (simp_all add: forum)
  have author: "find (\<lambda>u. user_id u = post_authorId post3) (db_users (forum_of [])) = Some bob"
    by (simp add: forum)
  have on3: "length (filter (\<lambda>c. comment_postId c = post_id post3) (db_comments (forum_of [])))
      = 13"
    by (simp add: forum)
  from getPosts_result[OF served, of 1]
  obtain ps where ps: "fst (getPosts (Some (Integral 1)) (forum_of [])) = Inr ps"
      "length ps = min (nat 1) (length (db_posts (forum_of [])))"
      "mset (map pl_post ps) \<subseteq># mset (db_posts (forum_of []))"
      "\<forall>q \<in># mset (db_posts (forum_of [])) - mset (map pl_post ps).
         \<forall>p \<in> set ps. post_createdAt q \<le> post_createdAt (pl_post p)"
      "\<forall>p \<in> set ps.
          pl_author p =
            find (\<lambda>u. user_id u = post_authorId (pl_post p)) (db_users (forum_of [])) \<and>
          mset (map cwa_comment (pl_comments p)) =
            mset (filter (\<lambda>c. comment_postId c = post_id (pl_post p))
                    (db_comments (forum_of []))) \<and>
          pl_count_comments p =
            length (filter (\<lambda>c. comment_postId c = post_id (pl_post p))
                      (db_comments (forum_of [])))"
      "getPosts None (forum_of []) = getPosts (Some (Integral 5)) (forum_of [])"
    by auto
  from ps(2) all obtain p where p: "ps = [p]"
    by (cases ps) auto
  from ps(3) p all have among: "pl_post p \<in> {post1, post2, post3}"
    using set_mset_mono by fastforce
  have newest: "pl_post p = post3"
  proof (rule ccontr)
    assume other: "pl_post p \<noteq> post3"
    then have "count (mset (map pl_post ps)) post3 = 0"
      by (simp add: p)
    moreover have "0 < count (mset (db_posts (forum_of []))) post3"
      by (simp add: all)
    ultimately have "post3 \<in># mset (db_posts (forum_of [])) - mset (map pl_post ps)"
      by (simp add: in_diff_count)
    with ps(4) p have "post_createdAt post3 \<le> post_createdAt (pl_post p)" by simp
    with among other times show False by auto
  qed
  from ps(5) p newest author on3
  have fields: "pl_author p = Some bob" "pl_count_comments p = 13"
      "mset (map cwa_comment (pl_comments p)) =
         mset (filter (\<lambda>c. comment_postId c = post_id post3) (db_comments (forum_of [])))"
    by simp_all
  from fields(3) on3 have "length (pl_comments p) = 13"
    using mset_eq_length by fastforce
  with ps(1,6) p newest fields(1,2) show ?thesis by simp
qed

theorem getPosts_refuses_large_limit:
  "fst (getPosts (Some (Integral (2 ^ 63))) (world_of [])) =
     Inl (Error ''Failed to fetch posts'')"
  by (simp add: getPosts_def flow prims world_of_def)



text \<open>
  C7. A call of \<^verbatim>\<open>createComment\<close> that returns a comment has issued, in this order
  and nothing else: the lookup of the post, the lookup of the author, the insert, the
  page-regeneration signal for the path \<^verbatim>\<open>/\<close>, and one invalidation request for
  exactly the tags \<^verbatim>\<open>posts_list\<close> and \<^verbatim>\<open>user_\<close> followed by the author id. The
  comment returned is the row appended to the comments, with the content, post id and
  author id given.
\<close>

theorem createComment_success_signals:
  assumes "createComment a s = (Inr c, s')"
  shows "\<exists>content pid aid.
           cm_content a = Some content \<and> cm_postId a = Some pid \<and> cm_authorId a = Some aid \<and>
           issued s s' =
             [FindUnique ''post'' pid None, FindUnique ''user'' aid None, Create ''comment'',
              RevalidatePath ''/'', Invalidate [''posts_list'', ''user_'' @ aid]] \<and>
           db_comments s' = db_comments s @ [cc_comment c] \<and>
           comment_content (cc_comment c) = content \<and>
           comment_postId (cc_comment c) = pid \<and>
           comment_authorId (cc_comment c) = aid"
proof -
  from assms obtain content pid aid where
    t: "truthy (cm_content a) = Some content" "truthy (cm_postId a) = Some pid"
       "truthy (cm_authorId a) = Some aid"
    by (cases "truthy (cm_content a)"; cases "truthy (cm_postId a)"; cases "truthy (cm_authorId a)")
       (simp_all add: createComment_def throwE_def)
  from assms have
    "issued s s' =
       [FindUnique ''post'' pid None, FindUnique ''user'' aid None, Create ''comment'',
        RevalidatePath ''/'', Invalidate [''posts_list'', ''user_'' @ aid]] \<and>
     db_comments s' = db_comments s @ [cc_comment c] \<and>
     comment_content (cc_comment c) = content \<and>
     comment_postId (cc_comment c) = pid \<and>
     comment_authorId (cc_comment c) = aid"
    by (auto simp: createComment_def t flow prims issued_def split: option.splits if_splits)
  with t show ?thesis by (auto simp: truthy_Some_iff)
qed

theorem createComment_success_signals_witness:
  "issued (world_of [])
     (snd (createComment \<lparr>cm_content = Some ''yo'', cm_postId = Some ''p1'',
                          cm_authorId = Some ''u1''\<rparr> (world_of []))) =
     [FindUnique ''post'' ''p1'' None, FindUnique ''user'' ''u1'' None, Create ''comment'',
      RevalidatePath ''/'', Invalidate [''posts_list'', ''user_u1'']] \<and>
   db_comments (snd (createComment \<lparr>cm_content = Some ''yo'', cm_postId = Some ''p1'',
                                    cm_authorId = Some ''u1''\<rparr> (world_of []))) =
     [comment1, comment2,
      \<lparr>comment_id = ''id7'', comment_content = ''yo'', comment_postId = ''p1'',
        comment_authorId = ''u1'', comment_createdAt = 10\<rparr>]"
proof -
  let ?a = "\<lparr>cm_content = Some ''yo'', cm_postId = Some ''p1'', cm_authorId = Some ''u1''\<rparr>"
  let ?c = "\<lparr>cc_comment =
               \<lparr>comment_id = ''id7'', comment_content = ''yo'', comment_postId = ''p1'',
                 comment_authorId = ''u1'', comment_createdAt = 10\<rparr>,
             cc_author = Some alice, cc_post = Some post1\<rparr>"
  have run: "createComment ?a (world_of []) = (Inr ?c, snd (createComment ?a (world_of [])))"
    by (simp add: createComment_def flow prims lookups examples fresh_id_def digit_def
        prod_eq_iff)
  from createComment_success_signals[OF run] show ?thesis
    by (simp add: examples)
qed

text \<open>
  C8. Each read action issues exactly one store query, and that query carries the cache
  policy of the action: \<^verbatim>\<open>getUsers\<close> a freshness window of 60 seconds and the tag
  \<^verbatim>\<open>users_list\<close>; \<^verbatim>\<open>getPosts\<close> a stale-while-revalidate window of 120 seconds
  and the tag \<^verbatim>\<open>posts_list\<close>; \<^verbatim>\<open>getUserById\<close> a freshness window of 30 seconds,
  a stale window of 60 seconds and the tag \<^verbatim>\<open>user_\<close> followed by the id.
\<close>

theorem read_actions_pass_cache_policy:
  "filter is_store_call (issued s (snd (getUsers s))) =
     [FindMany ''user'' (Some \<lparr>ttl = Some 60, swr = None, tags = [''users_list'']\<rparr>)] \<and>
   filter is_store_call (issued s (snd (getPosts l s))) =
     [FindMany ''post'' (Some \<lparr>ttl = None, swr = Some 120, tags = [''posts_list'']\<rparr>)] \<and>
   filter is_store_call (issued s (snd (getUserById uid s))) =
     [FindUnique ''user'' uid
        (Some \<lparr>ttl = Some 30, swr = Some 60, tags = [''user_'' @ uid]\<rparr>)]"
proof -
  have "filter is_store_call (issued s (snd (getUsers s))) =
     [FindMany ''user'' (Some \<lparr>ttl = Some 60, swr = None, tags = [''users_list'']\<rparr>)]"
    by (simp add: getUsers_def issued_def flow prims split: option.split)
  moreover have "filter is_store_call (issued s (snd (getPosts l s))) =
     [FindMany ''post'' (Some \<lparr>ttl = None, swr = Some 120, tags = [''posts_list'']\<rparr>)]"
    by (simp add: getPosts_def issued_def flow prims split: option.split)
  moreover have "filter is_store_call (issued s (snd (getUserById uid s))) =
     [FindUnique ''user'' uid
        (Some \<lparr>ttl = Some 30, swr = Some 60, tags = [''user_'' @ uid]\<rparr>)]"
    by (simp add: getUserById_def issued_def flow prims split: option.split)
  ultimately show ?thesis by simp
qed

text \<open>
  C9. A create action fails with its validation error exactly when a required argument
  is missing or empty, and a call that fails with the validation error leaves the world
  as it found it: no row is written, no query, page-regeneration signal or invalidation
  request is issued, nothing is logged.
\<close>

theorem validation_failure_precedes_every_call:
  "(fst (createUser u s) = Inl (Error ''Email is required'') \<longleftrightarrow>
      cu_email u = None \<or> cu_email u = Some []) \<and>
   (fst (createUser u s) = Inl (Error ''Email is required'') \<longrightarrow> snd (createUser u s) = s) \<and>
   (fst (createPost p s) = Inl (Error ''Title and author are required'') \<longleftrightarrow>
      cp_title p = None \<or> cp_title p = Some [] \<or>
      cp_authorId p = None \<or> cp_authorId p = Some []) \<and>
   (fst (createPost p s) = Inl (Error ''Title and author are required'') \<longrightarrow>
      snd (createPost p s) = s) \<and>
   (fst (createComment c s) = Inl (Error ''Content, post, and author are required'') \<longleftrightarrow>
      cm_content c = None \<or> cm_content c = Some [] \<or>
      cm_postId c = None \<or> cm_postId c = Some [] \<or>
      cm_authorId c = None \<or> cm_authorId c = Some []) \<and>
   (fst (createComment c s) = Inl (Error ''Content, post, and author are required'') \<longrightarrow>
      snd (createComment c s) = s)"
proof -
  have u: "fst (createUser u s) = Inl (Error ''Email is required'') \<longleftrightarrow>
      truthy (cu_email u) = None"
    by (simp add: createUser_def flow prims split: option.split)
  have u': "truthy (cu_email u) = None \<Longrightarrow> snd (createUser u s) = s"
    by (simp add: createUser_def throwE_def)
  have p: "fst (createPost p s) = Inl (Error ''Title and author are required'') \<longleftrightarrow>
      truthy (cp_title p) = None \<or> truthy (cp_authorId p) = None"
    by (simp add: createPost_def flow prims split: option.split)
  have p': "truthy (cp_title p) = None \<or> truthy (cp_authorId p) = None \<Longrightarrow>
      snd (createPost p s) = s"
    by (auto simp: createPost_def throwE_def split: option.split)
  have c: "fst (createComment c s) = Inl (Error ''Content, post, and author are required'') \<longleftrightarrow>
      truthy (cm_content c) = None \<or> truthy (cm_postId c) = None \<or> truthy (cm_authorId c) = None"
    by (simp add: createComment_def flow prims split: option.split)
  have c': "truthy (cm_content c) = None \<or> truthy (cm_postId c) = None \<or>
      truthy (cm_authorId c) = None \<Longrightarrow> snd (createComment c s) = s"
    by (auto simp: createComment_def throwE_def split: option.split)
  from u u' p p' c c' show ?thesis
    unfolding truthy_None_iff by blast
qed

theorem validation_failure_precedes_every_call_witness:
  "createUser \<lparr>cu_email = Some [], cu_name = Some ''Bob''\<rparr> (world_of []) =
     (Inl (Error ''Email is required''), world_of []) \<and>
   createPost \<lparr>cp_title = Some ''T2'', cp_content = None, cp_authorId = None,
               cp_published = None\<rparr> (world_of []) =
     (Inl (Error ''Title and author are required''), world_of []) \<and>
   createComment \<lparr>cm_content = Some ''yo'', cm_postId = Some [],
                  cm_authorId = Some ''u1''\<rparr> (world_of []) =
     (Inl (Error ''Content, post, and author are required''), world_of [])"
  using validation_failure_precedes_every_call
    [of "\<lparr>cu_email = Some [], cu_name = Some ''Bob''\<rparr>" "world_of []"
        "\<lparr>cp_title = Some ''T2'', cp_content = None, cp_authorId = None, cp_published = None\<rparr>"
        "\<lparr>cm_content = Some ''yo'', cm_postId = Some [], cm_authorId = Some ''u1''\<rparr>"]
  by (simp add: prod_eq_iff)

text \<open>
  C10. There are executions of \<^verbatim>\<open>createComment\<close> that insert the comment and fail
  all the same: when the page-regeneration call throws, or when the invalidation request
  throws, after the lookups and the insert were served, the action throws that error and
  the new row is in the database.
\<close>

theorem createComment_fails_after_insert:
  "fst (createComment \<lparr>cm_content = Some ''yo'', cm_postId = Some ''p1'',
                       cm_authorId = Some ''u1''\<rparr>
          (world_of [None, None, None, Some boom])) = Inl (Thrown boom) \<and>
   db_comments (snd (createComment \<lparr>cm_content = Some ''yo'', cm_postId = Some ''p1'',
                                    cm_authorId = Some ''u1''\<rparr>
          (world_of [None, None, None, Some boom]))) =
     db_comments (world_of []) @
       [\<lparr>comment_id = ''id7'', comment_content = ''yo'', comment_postId = ''p1'',
         comment_authorId = ''u1'', comment_createdAt = 10\<rparr>] \<and>
   trace (snd (createComment \<lparr>cm_content = Some ''yo'', cm_postId = Some ''p1'',
                              cm_authorId = Some ''u1''\<rparr>
          (world_of [None, None, None, Some boom]))) =
     [FindUnique ''post'' ''p1'' None, FindUnique ''user'' ''u1'' None, Create ''comment'',
      RevalidatePath ''/'', ConsoleError ''Error creating comment:'' (Thrown boom)] \<and>
   fst (createComment \<lparr>cm_content = Some ''yo'', cm_postId = Some ''p1'',
                       cm_authorId = Some ''u1''\<rparr>
          (world_of [None, None, None, None, Some boom])) = Inl (Thrown boom) \<and>
   db_comments (snd (createComment \<lparr>cm_content = Some ''yo'', cm_postId = Some ''p1'',
                                    cm_authorId = Some ''u1''\<rparr>
          (world_of [None, None, None, None, Some boom]))) =
     db_comments (world_of []) @
       [\<lparr>comment_id = ''id7'', comment_content = ''yo'', comment_postId = ''p1'',
         comment_authorId = ''u1'', comment_createdAt = 10\<rparr>] \<and>
   trace (snd (createComment \<lparr>cm_content = Some ''yo'', cm_postId = Some ''p1'',
                              cm_authorId = Some ''u1''\<rparr>
          (world_of [None, None, None, None, Some boom]))) =
     [FindUnique ''post'' ''p1'' None, FindUnique ''user'' ''u1'' None, Create ''comment'',
      RevalidatePath ''/'', Invalidate [''posts_list'', ''user_u1''],
      ConsoleError ''Error creating comment:'' (Thrown boom)]"
  by (simp add: createComment_def flow prims lookups examples fresh_id_def digit_def)

end
